theory Spec2Isabelle
  imports Main "HOL-Library.Sublist"
begin

section \<open>The vite-hmr plugin (src/index.ts)\<close>

text \<open>
  A shallow embedding of \<^verbatim>\<open>src/index.ts\<close>. JavaScript strings are modelled as
  \<^typ>\<open>string\<close>; every string the plugin inspects is compared against ASCII literals
  only, so the width of a character plays no role. The Node modules the plugin calls
  (\<^verbatim>\<open>node:path\<close>, \<^verbatim>\<open>node:fs\<close>, \<^verbatim>\<open>process\<close>) and the regular expressions it uses are
  not code of the repository; they are modelled below from their documented POSIX
  behaviour, one definition per library function, named after it.
\<close>

subsection \<open>Regular expressions as the source writes them\<close>

text \<open>
  The fragment of JavaScript regular expressions used in \<^verbatim>\<open>assetFileNames\<close>:
  literals, alternation, sequencing, the optional \<^verbatim>\<open>?\<close> and the end anchor \<^verbatim>\<open>$\<close>
  (no \<^verbatim>\<open>m\<close> flag, so it matches at the end of the input only).
  \<open>rx_match r s\<close> lists what remains of \<open>s\<close> after each way \<open>r\<close> matches a prefix
  of it; \<open>rx_test\<close> is \<^verbatim>\<open>RegExp.prototype.test\<close>: a match starting at some position.
\<close>

datatype regex =
    Lit string
  | Alt regex regex
  | Seq regex regex
  | Opt regex
  | EndAnchor

fun rx_match :: "regex \<Rightarrow> string \<Rightarrow> string list" where
  "rx_match (Lit l) s = (if prefix l s then [drop (length l) s] else [])"
| "rx_match (Alt a b) s = rx_match a s @ rx_match b s"
| "rx_match (Seq a b) s = concat (map (rx_match b) (rx_match a s))"
| "rx_match (Opt a) s = rx_match a s @ [s]"
| "rx_match EndAnchor s = (if s = [] then [s] else [])"

definition rx_test :: "regex \<Rightarrow> string \<Rightarrow> bool" where
  "rx_test r s = list_ex (\<lambda>i. rx_match r (drop i s) \<noteq> []) [0..<Suc (length s)]"

text \<open>\<^verbatim>\<open>/\.css$/\<close>\<close>

definition css_regex :: regex where
  "css_regex = Seq (Lit ''.css'') EndAnchor"

text \<open>\<^verbatim>\<open>/\.(gif|jpe?g|png|svg|webp)$/\<close>\<close>

definition image_regex :: regex where
  "image_regex =
     Seq (Lit ''.'')
       (Seq (Alt (Lit ''gif'')
              (Alt (Seq (Lit ''jp'') (Seq (Opt (Lit ''e'')) (Lit ''g'')))
                (Alt (Lit ''png'') (Alt (Lit ''svg'') (Lit ''webp'')))))
          EndAnchor)"

subsection \<open>The asset naming rule\<close>

text \<open>
  \<^verbatim>\<open>assetFileNames: ({ name }) => ...\<close> (index.ts, lines 108 to 113). The asset name
  may be undefined; \<^verbatim>\<open>name ?? ""\<close> then tests the empty string.
\<close>

definition nullish_string :: "string option \<Rightarrow> string" where
  "nullish_string name = (case name of None \<Rightarrow> [] | Some n \<Rightarrow> n)"

definition assetFileNames :: "string option \<Rightarrow> string" where
  "assetFileNames name =
     (if rx_test css_regex (nullish_string name) then ''css/[name][extname]''
      else if rx_test image_regex (nullish_string name) then ''images/[name][extname]''
      else ''assets/[name][extname]'')"

text \<open>The extensions the claim about the naming rule lists for images.\<close>

definition image_extensions :: "string list" where
  "image_extensions = [''.gif'', ''.jpg'', ''.jpeg'', ''.png'', ''.svg'', ''.webp'']"

subsection \<open>The path module of Node, POSIX variant\<close>

text \<open>
  \<^verbatim>\<open>path.dirname\<close>: trailing separators are skipped, then the last segment is cut
  off at the separator before it. \<open>dirname_scan\<close> is the loop
  \<^verbatim>\<open>for (i = path.length - 1; i >= 1; --i)\<close> with its flag \<^verbatim>\<open>matchedSlash\<close>; it
  returns the index \<^verbatim>\<open>end\<close>, or \<open>None\<close> for \<^verbatim>\<open>-1\<close>.
\<close>

fun dirname_scan :: "string \<Rightarrow> nat \<Rightarrow> bool \<Rightarrow> nat option" where
  "dirname_scan path 0 matchedSlash = None"
| "dirname_scan path (Suc i) matchedSlash =
     (if path ! Suc i = CHR ''/'' then
        (if \<not> matchedSlash then Some (Suc i) else dirname_scan path i matchedSlash)
      else dirname_scan path i False)"

definition path_dirname :: "string \<Rightarrow> string" where
  "path_dirname path =
     (if path = [] then ''.''
      else
        (case dirname_scan path (length path - 1) True of
           None \<Rightarrow> if hd path = CHR ''/'' then ''/'' else ''.''
         | Some e \<Rightarrow> if hd path = CHR ''/'' \<and> e = 1 then ''//'' else take e path))"

text \<open>
  \<^verbatim>\<open>normalizeString\<close>, segment by segment: empty segments and \<^verbatim>\<open>.\<close> are dropped,
  \<^verbatim>\<open>..\<close> removes the segment before it unless there is none or it is \<^verbatim>\<open>..\<close> itself,
  in which case \<^verbatim>\<open>..\<close> is kept when \<^verbatim>\<open>allowAboveRoot\<close> holds.
\<close>

fun split_slash :: "string \<Rightarrow> string list" where
  "split_slash [] = [[]]"
| "split_slash (c # cs) =
     (if c = CHR ''/'' then [] # split_slash cs
      else (case split_slash cs of [] \<Rightarrow> [[c]] | seg # segs \<Rightarrow> (c # seg) # segs))"

fun join_slash :: "string list \<Rightarrow> string" where
  "join_slash [] = []"
| "join_slash [seg] = seg"
| "join_slash (seg # segs) = seg @ ''/'' @ join_slash segs"

definition normalize_segment :: "bool \<Rightarrow> string list \<Rightarrow> string \<Rightarrow> string list" where
  "normalize_segment allowAboveRoot res seg =
     (if seg = [] \<or> seg = ''.'' then res
      else if seg = ''..'' then
        (if res \<noteq> [] \<and> last res \<noteq> ''..'' then butlast res
         else if allowAboveRoot then res @ [''..'']
         else res)
      else res @ [seg])"

definition normalizeString :: "string \<Rightarrow> bool \<Rightarrow> string" where
  "normalizeString path allowAboveRoot =
     join_slash (foldl (normalize_segment allowAboveRoot) [] (split_slash path))"

definition path_normalize :: "string \<Rightarrow> string" where
  "path_normalize path =
     (if path = [] then ''.''
      else
        (let isAbsolute = (hd path = CHR ''/'');
             trailingSeparator = (last path = CHR ''/'');
             p = normalizeString path (\<not> isAbsolute)
         in if p = [] then (if isAbsolute then ''/'' else if trailingSeparator then ''./'' else ''.'')
            else (if isAbsolute then ''/'' else []) @ p @ (if trailingSeparator then ''/'' else [])))"

text \<open>\<^verbatim>\<open>path.join(...args)\<close>: the non-empty arguments, joined by a separator and normalised.\<close>

definition path_join :: "string list \<Rightarrow> string" where
  "path_join args =
     (case filter (\<lambda>arg. arg \<noteq> []) args of
        [] \<Rightarrow> ''.''
      | joined \<Rightarrow> path_normalize (join_slash joined))"

text \<open>
  \<^verbatim>\<open>path.resolve(...args)\<close>: the arguments are read from the right, then the working
  directory, until one is absolute. \<open>resolve_scan\<close> is that loop; it returns
  \<^verbatim>\<open>resolvedPath\<close> and \<^verbatim>\<open>resolvedAbsolute\<close>. The first parameter of \<open>path_resolve\<close> is
  what \<^verbatim>\<open>process.cwd()\<close> returns.
\<close>

fun resolve_scan :: "string list \<Rightarrow> string \<Rightarrow> string \<times> bool" where
  "resolve_scan [] resolvedPath = (resolvedPath, False)"
| "resolve_scan (path # paths) resolvedPath =
     (if path = [] then resolve_scan paths resolvedPath
      else if hd path = CHR ''/'' then (path @ ''/'' @ resolvedPath, True)
      else resolve_scan paths (path @ ''/'' @ resolvedPath))"

definition path_resolve :: "string \<Rightarrow> string list \<Rightarrow> string" where
  "path_resolve cwd args =
     (case resolve_scan (rev args @ [cwd]) [] of
        (resolvedPath, resolvedAbsolute) \<Rightarrow>
          (let n = normalizeString resolvedPath (\<not> resolvedAbsolute)
           in if resolvedAbsolute then ''/'' @ n
              else if n \<noteq> [] then n else ''.''))"

subsection \<open>Strings, numbers and sets of the language\<close>

text \<open>\<^verbatim>\<open>p.replace(/\\/g, "/")\<close>: every backslash (character 0x5C) becomes a slash.\<close>

definition replace_backslashes :: "string \<Rightarrow> string" where
  "replace_backslashes p = map (\<lambda>c. if c = CHR 0x5C then CHR ''/'' else c) p"

text \<open>
  A port number inside a template literal: the decimal digits of a natural number.
\<close>

function number_toString :: "nat \<Rightarrow> string" where
  "number_toString n =
     (if n < 10 then [''0123456789'' ! n]
      else number_toString (n div 10) @ [''0123456789'' ! (n mod 10)])"
  by pat_completeness auto
termination
  by (relation "measure id") auto

declare number_toString.simps [simp del]

text \<open>
  \<^verbatim>\<open>Array.from(new Set(xs))\<close>: a set keeps its elements in insertion order and ignores
  the insertion of an element it already has.
\<close>

definition set_add :: "'a list \<Rightarrow> 'a \<Rightarrow> 'a list" where
  "set_add s x = (if x \<in> set s then s else s @ [x])"

definition array_from_set :: "'a list \<Rightarrow> 'a list" where
  "array_from_set xs = foldl set_add [] xs"

subsection \<open>Plugin options\<close>

text \<open>
  \<^verbatim>\<open>HmrPluginOptions\<close>: every field is optional. An input map (\<^verbatim>\<open>Record<string, string>\<close>)
  is the list of its entries in the order \<^verbatim>\<open>Object.values\<close> enumerates them.
\<close>

datatype input_option = InputArray "string list" | InputRecord "(string \<times> string) list"

datatype refresh_option = RefreshBool bool | RefreshString string | RefreshArray "string list"

record hmr_plugin_options =
  input :: "input_option option"
  publicDir :: "string option"
  buildDir :: "string option"
  hotFile :: "string option"
  refresh :: "refresh_option option"

text \<open>
  The five constants that the destructuring at the top of \<^verbatim>\<open>hmr\<close> binds, defaults
  applied; the hooks of the plugin close over them.
\<close>

record locals =
  l_input :: input_option
  l_publicDir :: string
  l_buildDir :: string
  l_hotFile :: string
  l_refresh :: refresh_option

definition default_to :: "'a \<Rightarrow> 'a option \<Rightarrow> 'a" where
  "default_to d v = (case v of None \<Rightarrow> d | Some x \<Rightarrow> x)"

definition destructure :: "hmr_plugin_options \<Rightarrow> locals" where
  "destructure options =
     \<lparr> l_input = default_to (InputArray []) (input options),
       l_publicDir = default_to ''public'' (publicDir options),
       l_buildDir = default_to ''build'' (buildDir options),
       l_hotFile = default_to (path_join [''public'', ''hot'']) (hotFile options),
       l_refresh = default_to (RefreshBool False) (refresh options) \<rparr>"

text \<open>The options object \<^verbatim>\<open>{}\<close>, the default of the parameter of \<^verbatim>\<open>hmr\<close>.\<close>

definition no_options :: hmr_plugin_options where
  "no_options =
     \<lparr> input = None, publicDir = None, buildDir = None, hotFile = None, refresh = None \<rparr>"

subsection \<open>The config hook\<close>

text \<open>
  The user configuration field the hook reads, \<^verbatim>\<open>publicDir?: string | false\<close>, and the
  settings object the hook returns.
\<close>

datatype public_dir = PublicDirPath string | PublicDirFalse

record user_config =
  uc_publicDir :: "public_dir option"

record rollup_output =
  entryFileNames :: string
  chunkFileNames :: string
  out_assetFileNames :: "string option \<Rightarrow> string"

record rollup_options =
  ro_input :: input_option
  ro_output :: rollup_output

record build_options =
  outDir :: string
  manifest :: bool
  rollupOptions :: rollup_options

record vite_config =
  vc_publicDir :: public_dir
  vc_build :: build_options

text \<open>
  \<^verbatim>\<open>config(userConfig)\<close> (index.ts, lines 95 to 118); \<open>cwd\<close> is what
  \<^verbatim>\<open>process.cwd()\<close> returns when the hook runs.
\<close>

definition config :: "locals \<Rightarrow> string \<Rightarrow> user_config \<Rightarrow> vite_config" where
  "config l cwd userConfig =
     \<lparr> vc_publicDir = default_to PublicDirFalse (uc_publicDir userConfig),
       vc_build =
         \<lparr> outDir = path_join [l_publicDir l, l_buildDir l],
           manifest = True,
           rollupOptions =
             \<lparr> ro_input =
                 (case l_input l of
                    InputArray paths \<Rightarrow> InputArray (map (\<lambda>i. path_resolve cwd [cwd, i]) paths)
                  | InputRecord entries \<Rightarrow> InputRecord entries),
               ro_output =
                 \<lparr> entryFileNames = ''js/[name].js'',
                   chunkFileNames = ''js/[name]-[hash].js'',
                   out_assetFileNames = assetFileNames \<rparr> \<rparr> \<rparr> \<rparr>"

subsection \<open>The reload plugin list and the plugin constructor\<close>

text \<open>
  A plugin option is either the plugin object of this repository (its hooks close over
  the locals) or what \<^verbatim>\<open>fullReload(paths)\<close> of \<^verbatim>\<open>vite-plugin-full-reload\<close> returns,
  which is kept opaque: only the watch list it was called with is recorded.
\<close>

datatype plugin_option = Plugin locals | FullReload "string list"

definition input_paths :: "input_option \<Rightarrow> string list" where
  "input_paths inp = (case inp of InputArray paths \<Rightarrow> paths | InputRecord entries \<Rightarrow> map snd entries)"

definition watch_roots :: "input_option \<Rightarrow> string list" where
  "watch_roots inp =
     array_from_set (map (\<lambda>p. path_dirname (replace_backslashes p)) (input_paths inp))"

definition refreshPlugin :: "locals \<Rightarrow> plugin_option list" where
  "refreshPlugin l =
     (case l_refresh l of
        RefreshBool b \<Rightarrow> if \<not> b then [] else [FullReload (watch_roots (l_input l))]
      | RefreshArray patterns \<Rightarrow> [FullReload patterns]
      | RefreshString pattern \<Rightarrow> [FullReload [pattern]])"

definition hmr :: "hmr_plugin_options option \<Rightarrow> plugin_option list" where
  "hmr options =
     (let l = destructure (default_to no_options options)
      in Plugin l # refreshPlugin l)"

subsection \<open>The file system and the process\<close>

text \<open>
  The part of \<^verbatim>\<open>node:fs\<close> the plugin calls, over a file system that maps a path to
  the node found there. Paths are compared as strings: the plugin reaches the marker
  file through the one string \<^verbatim>\<open>hotFile\<close> and its directory through
  \<^verbatim>\<open>path.dirname(hotFile)\<close>. A failing call throws; the error is the \<open>Inl\<close> result.
\<close>

datatype fs_node = File string | Directory

type_synonym filesystem = "string \<Rightarrow> fs_node option"

datatype fs_error = ENOENT | ENOTDIR | EISDIR | EEXIST

definition existsSync :: "filesystem \<Rightarrow> string \<Rightarrow> bool" where
  "existsSync fs p = (fs p \<noteq> None)"

definition is_file :: "filesystem \<Rightarrow> string \<Rightarrow> bool" where
  "is_file fs p = (case fs p of Some (File content) \<Rightarrow> True | _ \<Rightarrow> False)"

text \<open>
  \<^verbatim>\<open>fs.mkdirSync(p, { recursive: true })\<close> creates \<open>p\<close> and every missing directory
  above it; \<open>mkdir_chain\<close> lists \<open>p\<close> and the directories above it.
\<close>

fun mkdir_chain :: "nat \<Rightarrow> string \<Rightarrow> string list" where
  "mkdir_chain 0 p = [p]"
| "mkdir_chain (Suc n) p =
     (if path_dirname p = p then [p] else p # mkdir_chain n (path_dirname p))"

definition mkdirSync_recursive :: "filesystem \<Rightarrow> string \<Rightarrow> fs_error + filesystem" where
  "mkdirSync_recursive fs p =
     (if is_file fs p then Inl EEXIST
      else if list_ex (is_file fs) (mkdir_chain (length p) p) then Inl ENOTDIR
      else Inr (foldr (\<lambda>q f. f(q \<mapsto> Directory)) (mkdir_chain (length p) p) fs))"

text \<open>
  \<^verbatim>\<open>fs.writeFileSync(p, data)\<close> replaces the whole content of the file, creating it
  when it is absent; its directory must exist, and a path that ends with a separator
  names a directory.
\<close>

definition writeFileSync :: "filesystem \<Rightarrow> string \<Rightarrow> string \<Rightarrow> fs_error + filesystem" where
  "writeFileSync fs p data =
     (if p = [] then Inl ENOENT
      else if last p = CHR ''/'' then Inl EISDIR
      else
        (case fs p of
           Some Directory \<Rightarrow> Inl EISDIR
         | _ \<Rightarrow>
            (case fs (path_dirname p) of
               None \<Rightarrow> Inl ENOENT
             | Some (File content) \<Rightarrow> Inl ENOTDIR
             | Some Directory \<Rightarrow> Inr (fs(p \<mapsto> File data)))))"

definition unlinkSync :: "filesystem \<Rightarrow> string \<Rightarrow> fs_error + filesystem" where
  "unlinkSync fs p =
     (case fs p of
        None \<Rightarrow> Inl ENOENT
      | Some Directory \<Rightarrow> Inl EISDIR
      | Some (File content) \<Rightarrow> Inr (fs(p := None)))"

text \<open>
  What \<^verbatim>\<open>server.httpServer?.address()\<close> may evaluate to, following the parameter type
  of \<^verbatim>\<open>isAddressInfo\<close>: \<^verbatim>\<open>string | number | AddressInfo | null | undefined\<close>.
\<close>

record address_info =
  address :: string
  family :: string
  port :: nat

datatype server_address =
    AddrString string
  | AddrNumber int
  | AddrInfo address_info
  | AddrNull
  | AddrUndefined

text \<open>
  The server handle: \<^verbatim>\<open>httpServer\<close> is null in middleware mode; otherwise it is
  given by what its \<^verbatim>\<open>address()\<close> returns once it listens.
\<close>

record server =
  httpServer :: "server_address option"

text \<open>
  The events the plugin subscribes to, and its listeners: each closure of
  \<^verbatim>\<open>configureServer\<close> with the values it captures.
\<close>

datatype event = Listening | Close | SIGINT | SIGTERM

datatype listener = WriteHotFile locals server | Cleanup locals | CleanupAndExit locals

text \<open>
  The world the hooks act on: the file system, the exit code once \<^verbatim>\<open>process.exit\<close> has
  been called, and the registered listeners, each with its event and whether it was
  registered with \<^verbatim>\<open>once\<close>.
\<close>

record world =
  w_fs :: filesystem
  w_exit :: "int option"
  w_listeners :: "(event \<times> bool \<times> listener) list"

definition process_exit :: "int \<Rightarrow> world \<Rightarrow> world" where
  "process_exit code w = w\<lparr>w_exit := Some code\<rparr>"

subsection \<open>The configureServer hook\<close>

text \<open>The callback of the listening event (index.ts, lines 126 to 146).\<close>

definition isAddressInfo :: "server_address \<Rightarrow> bool" where
  "isAddressInfo addr = (case addr of AddrInfo info \<Rightarrow> True | _ \<Rightarrow> False)"

definition resolved_host :: "server_address \<Rightarrow> string" where
  "resolved_host addr =
     (case addr of
        AddrInfo info \<Rightarrow> if address info = ''::'' then ''localhost'' else address info
      | _ \<Rightarrow> ''localhost'')"

definition resolved_port :: "server_address \<Rightarrow> nat" where
  "resolved_port addr = (case addr of AddrInfo info \<Rightarrow> port info | _ \<Rightarrow> 5173)"

definition dev_server_url :: "server_address \<Rightarrow> string" where
  "dev_server_url addr =
     ''http://'' @ resolved_host addr @ '':'' @ number_toString (resolved_port addr)"

definition server_address_of :: "server \<Rightarrow> server_address" where
  "server_address_of srv = (case httpServer srv of None \<Rightarrow> AddrUndefined | Some a \<Rightarrow> a)"

definition on_listening :: "locals \<Rightarrow> server \<Rightarrow> world \<Rightarrow> fs_error + world" where
  "on_listening l srv w =
     (let url = dev_server_url (server_address_of srv);
          hotDir = path_dirname (l_hotFile l)
      in case (if \<not> existsSync (w_fs w) hotDir then mkdirSync_recursive (w_fs w) hotDir
               else Inr (w_fs w)) of
           Inl e \<Rightarrow> Inl e
         | Inr fs1 \<Rightarrow>
            (case writeFileSync fs1 (l_hotFile l) url of
               Inl e \<Rightarrow> Inl e
             | Inr fs2 \<Rightarrow> Inr (w\<lparr>w_fs := fs2\<rparr>)))"

text \<open>\<^verbatim>\<open>cleanup\<close> (index.ts, lines 148 to 150).\<close>

definition cleanup :: "locals \<Rightarrow> world \<Rightarrow> fs_error + world" where
  "cleanup l w =
     (if existsSync (w_fs w) (l_hotFile l) then
        (case unlinkSync (w_fs w) (l_hotFile l) of
           Inl e \<Rightarrow> Inl e
         | Inr fs1 \<Rightarrow> Inr (w\<lparr>w_fs := fs1\<rparr>))
      else Inr w)"

text \<open>The signal listeners (index.ts, lines 153 to 160): \<^verbatim>\<open>cleanup(); process.exit(0)\<close>.\<close>

definition cleanup_and_exit :: "locals \<Rightarrow> world \<Rightarrow> fs_error + world" where
  "cleanup_and_exit l w =
     (case cleanup l w of
        Inl e \<Rightarrow> Inl e
      | Inr w1 \<Rightarrow> Inr (process_exit 0 w1))"

fun run_listener :: "listener \<Rightarrow> world \<Rightarrow> fs_error + world" where
  "run_listener (WriteHotFile l srv) w = on_listening l srv w"
| "run_listener (Cleanup l) w = cleanup l w"
| "run_listener (CleanupAndExit l) w = cleanup_and_exit l w"

text \<open>
  \<^verbatim>\<open>configureServer(server)\<close> registers the listeners; those on
  \<^verbatim>\<open>server.httpServer\<close> only when there is one (\<^verbatim>\<open>?.\<close>).
\<close>

definition configureServer :: "locals \<Rightarrow> server \<Rightarrow> world \<Rightarrow> world" where
  "configureServer l srv w =
     w\<lparr>w_listeners := w_listeners w
          @ (if httpServer srv \<noteq> None then [(Listening, True, WriteHotFile l srv)] else [])
          @ (if httpServer srv \<noteq> None then [(Close, False, Cleanup l)] else [])
          @ [(SIGINT, False, CleanupAndExit l), (SIGTERM, False, CleanupAndExit l)]\<rparr>"

text \<open>
  Emitting an event calls its listeners in the order of registration, synchronously;
  a listener registered with \<^verbatim>\<open>once\<close> is removed before it is called. A listener that
  throws ends the emission with its error, and nothing runs once the process has exited.
\<close>

fun run_listeners :: "listener list \<Rightarrow> world \<Rightarrow> fs_error + world" where
  "run_listeners [] w = Inr w"
| "run_listeners (h # hs) w =
     (if w_exit w \<noteq> None then Inr w
      else (case run_listener h w of
              Inl e \<Rightarrow> Inl e
            | Inr w1 \<Rightarrow> run_listeners hs w1))"

definition emit :: "event \<Rightarrow> world \<Rightarrow> fs_error + world" where
  "emit ev w =
     (if w_exit w \<noteq> None then Inr w
      else run_listeners
             (map (\<lambda>r. snd (snd r)) (filter (\<lambda>r. fst r = ev) (w_listeners w)))
             (w\<lparr>w_listeners := filter (\<lambda>r. \<not> (fst r = ev \<and> fst (snd r))) (w_listeners w)\<rparr>))"

subsection \<open>The wording of the specification\<close>

text \<open>
  The distinct elements of a list in the order of their first occurrence: the element
  at position \<open>i\<close> is kept when it does not occur before \<open>i\<close>.
\<close>

definition first_occurrences :: "'a list \<Rightarrow> 'a list" where
  "first_occurrences xs =
     map (\<lambda>i. xs ! i) (filter (\<lambda>i. xs ! i \<notin> set (take i xs)) [0..<length xs])"

text \<open>
  The unspecified addresses, on which a server accepts connections on every interface:
  \<^verbatim>\<open>0.0.0.0\<close> for IPv4 and \<^verbatim>\<open>::\<close> for IPv6.
\<close>

definition unspecified_address :: "string \<Rightarrow> bool" where
  "unspecified_address a = (a = ''0.0.0.0'' \<or> a = ''::'')"

text \<open>
  A plain name: one path segment that is not empty, has no separator and is neither
  \<^verbatim>\<open>.\<close> nor \<^verbatim>\<open>..\<close>.
\<close>

definition plain_name :: "string \<Rightarrow> bool" where
  "plain_name a = (a \<noteq> [] \<and> CHR ''/'' \<notin> set a \<and> a \<noteq> ''.'' \<and> a \<noteq> ''..'')"

text \<open>A POSIX path is absolute when it starts with the separator.\<close>

definition is_absolute :: "string \<Rightarrow> bool" where
  "is_absolute p = (p \<noteq> [] \<and> hd p = CHR ''/'')"

section \<open>Properties\<close>

subsection \<open>Regular expression tests are suffix tests\<close>

lemma rx_test_iff: "rx_test r s \<longleftrightarrow> (\<exists>i\<le>length s. rx_match r (drop i s) \<noteq> [])"
proof -
  have "set [0..<Suc (length s)] = {i. i \<le> length s}"
    by (auto simp del: upt_Suc)
  then show ?thesis
    unfolding rx_test_def list_ex_iff by blast
qed

lemma drop_eq_iff_suffix: "(\<exists>i\<le>length s. drop i s = l) \<longleftrightarrow> suffix l s"
proof
  assume "\<exists>i\<le>length s. drop i s = l"
  then obtain i where "drop i s = l" by blast
  then have "s = take i s @ l" by (metis append_take_drop_id)
  then show "suffix l s" unfolding suffix_def by blast
next
  assume "suffix l s"
  then obtain zs where s: "s = zs @ l" unfolding suffix_def by blast
  then have "length zs \<le> length s" and "drop (length zs) s = l" by simp_all
  then show "\<exists>i\<le>length s. drop i s = l" by blast
qed

lemma lit_end_match: "rx_match (Seq (Lit l) EndAnchor) t \<noteq> [] \<longleftrightarrow> t = l"
proof
  assume "rx_match (Seq (Lit l) EndAnchor) t \<noteq> []"
  then have p: "prefix l t" and d: "drop (length l) t = []"
    by (auto split: if_splits)
  from p obtain r where "t = l @ r" unfolding prefix_def by blast
  with d show "t = l" by simp
next
  assume "t = l"
  then show "rx_match (Seq (Lit l) EndAnchor) t \<noteq> []" by simp
qed

lemma css_regex_test: "rx_test css_regex s \<longleftrightarrow> suffix ''.css'' s"
  unfolding rx_test_iff css_regex_def lit_end_match by (rule drop_eq_iff_suffix)

lemma in_rx_match_Lit: "u \<in> set (rx_match (Lit l) t) \<longleftrightarrow> t = l @ u"
  by (auto simp: prefix_def)

lemma in_rx_match_Seq:
  "u \<in> set (rx_match (Seq a b) t) \<longleftrightarrow> (\<exists>m. m \<in> set (rx_match a t) \<and> u \<in> set (rx_match b m))"
  by auto

lemma in_rx_match_Alt:
  "u \<in> set (rx_match (Alt a b) t) \<longleftrightarrow> u \<in> set (rx_match a t) \<or> u \<in> set (rx_match b t)"
  by auto

lemma in_rx_match_Opt: "u \<in> set (rx_match (Opt a) t) \<longleftrightarrow> u \<in> set (rx_match a t) \<or> u = t"
  by auto

lemma in_rx_match_EndAnchor: "u \<in> set (rx_match EndAnchor t) \<longleftrightarrow> u = [] \<and> t = []"
  by auto

lemma rx_match_nonempty: "rx_match r t \<noteq> [] \<longleftrightarrow> (\<exists>u. u \<in> set (rx_match r t))"
  by (cases "rx_match r t") auto

lemma image_regex_match: "rx_match image_regex t \<noteq> [] \<longleftrightarrow> t \<in> set image_extensions"
  unfolding rx_match_nonempty image_regex_def image_extensions_def
    in_rx_match_Seq in_rx_match_Alt in_rx_match_Opt in_rx_match_Lit in_rx_match_EndAnchor
  by auto

lemma image_regex_test: "rx_test image_regex s \<longleftrightarrow> (\<exists>e\<in>set image_extensions. suffix e s)"
proof -
  have "rx_test image_regex s \<longleftrightarrow> (\<exists>e\<in>set image_extensions. \<exists>i\<le>length s. drop i s = e)"
    unfolding rx_test_iff image_regex_match by blast
  then show ?thesis unfolding drop_eq_iff_suffix .
qed

lemma css_not_image:
  assumes "suffix ''.css'' s" and "e \<in> set image_extensions"
  shows "\<not> suffix e s"
proof
  assume "suffix e s"
  then obtain zs where "s = zs @ e" unfolding suffix_def by blast
  moreover from assms(1) obtain ys where "s = ys @ ''.css''" unfolding suffix_def by blast
  ultimately have "last (zs @ e) = last (ys @ ''.css'')" by simp
  with assms(2) show False by (auto simp: image_extensions_def)
qed

subsection \<open>The asset naming rule\<close>

text \<open>
  Claim C3. For every asset name (an undefined name counts as the empty string), the
  naming rule returns a template in the \<^verbatim>\<open>css/\<close> folder when the name ends in
  \<^verbatim>\<open>.css\<close>, a template in the \<^verbatim>\<open>images/\<close> folder when it ends in one of
  \<^verbatim>\<open>.gif\<close>, \<^verbatim>\<open>.jpg\<close>, \<^verbatim>\<open>.jpeg\<close>, \<^verbatim>\<open>.png\<close>, \<^verbatim>\<open>.svg\<close>, \<^verbatim>\<open>.webp\<close>, and a template in the
  \<^verbatim>\<open>assets/\<close> folder for every other name.
\<close>

theorem assetFileNames_by_extension:
  "(suffix ''.css'' (nullish_string name) \<longrightarrow> assetFileNames name = ''css/[name][extname]'')
   \<and> ((\<exists>e\<in>set image_extensions. suffix e (nullish_string name))
        \<longrightarrow> assetFileNames name = ''images/[name][extname]'')
   \<and> (\<not> suffix ''.css'' (nullish_string name)
        \<and> \<not> (\<exists>e\<in>set image_extensions. suffix e (nullish_string name))
        \<longrightarrow> assetFileNames name = ''assets/[name][extname]'')"
  unfolding assetFileNames_def css_regex_test image_regex_test
  using css_not_image [of "nullish_string name"] by auto

text \<open>The rule on a stylesheet, an image, a font and an undefined name.\<close>

theorem assetFileNames_by_extension_witness:
  "assetFileNames (Some ''app.css'') = ''css/[name][extname]''
   \<and> assetFileNames (Some ''img/logo.jpeg'') = ''images/[name][extname]''
   \<and> assetFileNames (Some ''font.woff2'') = ''assets/[name][extname]''
   \<and> assetFileNames None = ''assets/[name][extname]''"
  using assetFileNames_by_extension [of "Some ''app.css''"]
    assetFileNames_by_extension [of "Some ''img/logo.jpeg''"]
    assetFileNames_by_extension [of "Some ''font.woff2''"]
    assetFileNames_by_extension [of None]
  by (simp add: nullish_string_def image_extensions_def suffix_to_prefix)

subsection \<open>Watch roots derived from the inputs\<close>

lemma set_add_set: "set (set_add s x) = insert x (set s)"
  by (auto simp: set_add_def)

lemma array_from_set_snoc: "array_from_set (xs @ [x]) = set_add (array_from_set xs) x"
  by (simp add: array_from_set_def)

lemma set_array_from_set: "set (array_from_set xs) = set xs"
proof (induction xs rule: rev_induct)
  case Nil
  show ?case by (simp add: array_from_set_def)
next
  case (snoc x xs)
  then show ?case by (simp add: array_from_set_snoc set_add_set)
qed

lemma distinct_array_from_set: "distinct (array_from_set xs)"
proof (induction xs rule: rev_induct)
  case Nil
  show ?case by (simp add: array_from_set_def)
next
  case (snoc x xs)
  then show ?case by (simp add: array_from_set_snoc set_add_def)
qed

lemma first_occurrences_snoc:
  "first_occurrences (xs @ [x]) = first_occurrences xs @ (if x \<in> set xs then [] else [x])"
proof -
  let ?P = "\<lambda>ys i. ys ! i \<notin> set (take i ys)"
  have keep: "filter (?P (xs @ [x])) [0..<length xs] = filter (?P xs) [0..<length xs]"
    by (rule filter_cong) (auto simp: nth_append)
  have sel: "map (\<lambda>i. (xs @ [x]) ! i) (filter (?P xs) [0..<length xs])
           = map (\<lambda>i. xs ! i) (filter (?P xs) [0..<length xs])"
    by (rule map_cong) (auto simp: nth_append)
  have new: "map (\<lambda>i. (xs @ [x]) ! i) (filter (?P (xs @ [x])) [length xs])
           = (if x \<in> set xs then [] else [x])"
    by simp
  have "[0..<length (xs @ [x])] = [0..<length xs] @ [length xs]"
    by simp
  then have "first_occurrences (xs @ [x])
           = map (\<lambda>i. (xs @ [x]) ! i) (filter (?P (xs @ [x])) [0..<length xs])
             @ map (\<lambda>i. (xs @ [x]) ! i) (filter (?P (xs @ [x])) [length xs])"
    unfolding first_occurrences_def by (simp only: filter_append map_append)
  also have "\<dots> = first_occurrences xs @ (if x \<in> set xs then [] else [x])"
    unfolding keep sel new first_occurrences_def ..
  finally show ?thesis .
qed

lemma array_from_set_first_occurrences: "array_from_set xs = first_occurrences xs"
proof (induction xs rule: rev_induct)
  case Nil
  show ?case by (simp add: array_from_set_def first_occurrences_def)
next
  case (snoc x xs)
  have "set (first_occurrences xs) = set xs"
    using set_array_from_set [of xs] snoc.IH by simp
  then show ?case
    by (simp add: array_from_set_snoc first_occurrences_snoc snoc.IH set_add_def)
qed

text \<open>
  Claim C2. With \<^verbatim>\<open>refresh: true\<close>, the plugin list holds one reload plugin, and the
  watch list it is given is the list of parent directories of the input paths (the
  values of an input map), each computed after replacing backslashes by slashes, with
  every directory kept at its first occurrence only: the list is distinct and has the
  same elements as the list of all parent directories.
\<close>

theorem refresh_true_watch_roots:
  assumes "l_refresh l = RefreshBool True"
  shows "refreshPlugin l =
           [FullReload (first_occurrences
              (map (\<lambda>p. path_dirname (replace_backslashes p))
                 (case l_input l of InputArray paths \<Rightarrow> paths
                  | InputRecord entries \<Rightarrow> map snd entries)))]
         \<and> distinct (first_occurrences
              (map (\<lambda>p. path_dirname (replace_backslashes p))
                 (case l_input l of InputArray paths \<Rightarrow> paths
                  | InputRecord entries \<Rightarrow> map snd entries)))
         \<and> set (first_occurrences
              (map (\<lambda>p. path_dirname (replace_backslashes p))
                 (case l_input l of InputArray paths \<Rightarrow> paths
                  | InputRecord entries \<Rightarrow> map snd entries)))
           = (\<lambda>p. path_dirname (replace_backslashes p)) `
               set (case l_input l of InputArray paths \<Rightarrow> paths
                    | InputRecord entries \<Rightarrow> map snd entries)"
proof -
  let ?dirs = "map (\<lambda>p. path_dirname (replace_backslashes p))
                 (case l_input l of InputArray paths \<Rightarrow> paths
                  | InputRecord entries \<Rightarrow> map snd entries)"
  have "refreshPlugin l = [FullReload (array_from_set ?dirs)]"
    using assms by (simp add: refreshPlugin_def watch_roots_def input_paths_def)
  moreover have "distinct (array_from_set ?dirs)"
    by (rule distinct_array_from_set)
  moreover have "set (array_from_set ?dirs) = set ?dirs"
    by (rule set_array_from_set)
  ultimately show ?thesis
    unfolding array_from_set_first_occurrences by simp
qed

text \<open>
  The inputs \<^verbatim>\<open>src/js/a.ts\<close> and \<^verbatim>\<open>src/css/b.css\<close>, and an input map with a path
  written with backslashes and a directory that occurs twice.
\<close>

theorem refresh_true_watch_roots_witness:
  "refreshPlugin
     \<lparr>l_input = InputArray [''src/js/a.ts'', ''src/css/b.css''], l_publicDir = ''public'',
       l_buildDir = ''build'', l_hotFile = ''public/hot'', l_refresh = RefreshBool True\<rparr>
     = [FullReload [''src/js'', ''src/css'']]
   \<and> refreshPlugin
     \<lparr>l_input = InputRecord
         [(''main'', ''src'' @ [CHR 0x5C] @ ''js'' @ [CHR 0x5C] @ ''a.ts''),
          (''style'', ''src/css/b.css''), (''extra'', ''src/js/c.ts'')],
       l_publicDir = ''public'', l_buildDir = ''build'', l_hotFile = ''public/hot'',
       l_refresh = RefreshBool True\<rparr>
     = [FullReload [''src/js'', ''src/css'']]"
proof -
  let ?a = "\<lparr>l_input = InputArray [''src/js/a.ts'', ''src/css/b.css''], l_publicDir = ''public'',
       l_buildDir = ''build'', l_hotFile = ''public/hot'', l_refresh = RefreshBool True\<rparr>"
  let ?b = "\<lparr>l_input = InputRecord
         [(''main'', ''src'' @ [CHR 0x5C] @ ''js'' @ [CHR 0x5C] @ ''a.ts''),
          (''style'', ''src/css/b.css''), (''extra'', ''src/js/c.ts'')],
       l_publicDir = ''public'', l_buildDir = ''build'', l_hotFile = ''public/hot'',
       l_refresh = RefreshBool True\<rparr>"
  have ha: "l_refresh ?a = RefreshBool True" and hb: "l_refresh ?b = RefreshBool True"
    by simp_all
  have d1: "path_dirname ''src/js/a.ts'' = ''src/js''"
    and d2: "path_dirname ''src/css/b.css'' = ''src/css''"
    and d3: "path_dirname ''src/js/c.ts'' = ''src/js''"
    by (simp_all add: path_dirname_def)
  have fo: "first_occurrences [''src/js'', ''src/css''] = [''src/js'', ''src/css'']"
    "first_occurrences [''src/js'', ''src/css'', ''src/js''] = [''src/js'', ''src/css'']"
    by (simp_all add: first_occurrences_def upt_rec)
  from refresh_true_watch_roots [OF ha] refresh_true_watch_roots [OF hb]
  show ?thesis
    by (simp add: replace_backslashes_def d1 d2 d3 fo)
qed

subsection \<open>The output directory\<close>

lemma split_slash_not_Nil: "split_slash s \<noteq> []"
  by (induction s) (auto split: list.splits)

lemma split_slash_plain: "CHR ''/'' \<notin> set a \<Longrightarrow> split_slash a = [a]"
  by (induction a) auto

lemma split_slash_append:
  "CHR ''/'' \<notin> set a \<Longrightarrow> split_slash (a @ CHR ''/'' # r) = a # split_slash r"
  by (induction a) (auto split: list.splits simp: split_slash_not_Nil)

lemma normalizeString_two_names:
  assumes "plain_name a" and "plain_name b"
  shows "normalizeString (a @ ''/'' @ b) allow = a @ ''/'' @ b"
proof -
  from assms have "split_slash (a @ ''/'' @ b) = [a, b]"
    by (simp add: plain_name_def split_slash_append split_slash_plain)
  with assms show ?thesis
    by (simp add: normalizeString_def normalize_segment_def plain_name_def)
qed

lemma path_join_two_names:
  assumes "plain_name a" and "plain_name b"
  shows "path_join [a, b] = a @ ''/'' @ b"
proof -
  from assms have ne: "a \<noteq> []" "b \<noteq> []" and no: "CHR ''/'' \<notin> set a" "CHR ''/'' \<notin> set b"
    by (simp_all add: plain_name_def)
  from ne no have hd: "hd a \<noteq> CHR ''/''" and lst: "last b \<noteq> CHR ''/''"
    using hd_in_set [of a] last_in_set [of b] by metis+
  have "path_join [a, b] = path_normalize (a @ ''/'' @ b)"
    using ne by (simp add: path_join_def)
  also have "\<dots> = a @ ''/'' @ b"
    using ne hd lst normalizeString_two_names [OF assms]
    by (simp add: path_normalize_def Let_def)
  finally show ?thesis .
qed

text \<open>
  Claim C4. For every options object, the settings the config hook returns have the
  output directory \<^verbatim>\<open>path.join(publicDir, buildDir)\<close> (defaults applied) and manifest
  generation enabled; when both directory names are plain names, the output directory is
  the first, a separator, and the second.
\<close>

theorem config_outDir_manifest:
  "outDir (vc_build (config (destructure options) cwd userConfig))
     = path_join [default_to ''public'' (publicDir options), default_to ''build'' (buildDir options)]
   \<and> manifest (vc_build (config (destructure options) cwd userConfig))
   \<and> (plain_name (default_to ''public'' (publicDir options))
        \<and> plain_name (default_to ''build'' (buildDir options))
        \<longrightarrow> outDir (vc_build (config (destructure options) cwd userConfig))
            = default_to ''public'' (publicDir options) @ ''/'' @ default_to ''build'' (buildDir options))"
  by (simp add: config_def destructure_def path_join_two_names)

text \<open>With a list of two input paths, \<^verbatim>\<open>public\<close> and \<^verbatim>\<open>build\<close> give \<^verbatim>\<open>public/build\<close>.\<close>

theorem config_outDir_manifest_witness:
  "outDir (vc_build (config (destructure
       \<lparr>input = Some (InputArray [''src/js/a.ts'', ''src/css/b.css'']),
         publicDir = Some ''public'', buildDir = Some ''build'', hotFile = None, refresh = None\<rparr>)
     ''/srv/app'' \<lparr>uc_publicDir = None\<rparr>)) = ''public/build''
   \<and> manifest (vc_build (config (destructure
       \<lparr>input = Some (InputArray [''src/js/a.ts'', ''src/css/b.css'']),
         publicDir = Some ''public'', buildDir = Some ''build'', hotFile = None, refresh = None\<rparr>)
     ''/srv/app'' \<lparr>uc_publicDir = None\<rparr>))"
proof -
  let ?options = "\<lparr>input = Some (InputArray [''src/js/a.ts'', ''src/css/b.css'']),
         publicDir = Some ''public'', buildDir = Some ''build'', hotFile = None, refresh = None\<rparr>"
  have names: "plain_name (default_to ''public'' (publicDir ?options))
      \<and> plain_name (default_to ''build'' (buildDir ?options))"
    by (simp add: plain_name_def default_to_def)
  from names config_outDir_manifest [of ?options "''/srv/app''" "\<lparr>uc_publicDir = None\<rparr>"]
  show ?thesis by (auto simp: default_to_def)
qed

subsection \<open>Input paths in the build settings\<close>

lemma path_resolve_cwd:
  assumes "is_absolute cwd"
  shows "path_resolve cwd [cwd, i] =
           ''/'' @ normalizeString
              (if i = [] then cwd @ ''/''
               else if is_absolute i then i @ ''/''
               else cwd @ ''/'' @ i @ ''/'') False"
  using assms by (simp add: path_resolve_def is_absolute_def)

text \<open>
  Claim C6. When the input option is a list, the build settings hold, for each path of
  the list and in the same order, \<^verbatim>\<open>path.resolve(process.cwd(), path)\<close>; with an
  absolute working directory this is an absolute path: the normalised path itself when
  it is absolute, the normalised working directory followed by the path otherwise. When
  the input option is a map, the build settings hold the same map.
\<close>

theorem config_input_resolved:
  "(l_input l = InputArray paths \<longrightarrow>
      ro_input (rollupOptions (vc_build (config l cwd userConfig)))
        = InputArray (map (\<lambda>i. path_resolve cwd [cwd, i]) paths)
      \<and> (is_absolute cwd \<longrightarrow>
           (\<forall>i\<in>set paths.
              is_absolute (path_resolve cwd [cwd, i])
              \<and> path_resolve cwd [cwd, i] =
                  ''/'' @ normalizeString
                     (if i = [] then cwd @ ''/''
                      else if is_absolute i then i @ ''/''
                      else cwd @ ''/'' @ i @ ''/'') False)))
   \<and> (l_input l = InputRecord entries \<longrightarrow>
        ro_input (rollupOptions (vc_build (config l cwd userConfig))) = InputRecord entries)"
proof -
  have "is_absolute (path_resolve cwd [cwd, i])" if "is_absolute cwd" for i
    unfolding path_resolve_cwd [OF that] by (simp add: is_absolute_def)
  then show ?thesis
    by (simp add: config_def path_resolve_cwd)
qed

text \<open>
  A relative path, a path that climbs out of its directory and an absolute path, under
  the working directory \<^verbatim>\<open>/srv/app\<close>; and an input map.
\<close>

theorem config_input_resolved_witness:
  "ro_input (rollupOptions (vc_build (config
       \<lparr>l_input = InputArray [''src/main.ts'', ''../lib/./x.css'', ''/opt/y.js''],
         l_publicDir = ''public'', l_buildDir = ''build'', l_hotFile = ''public/hot'',
         l_refresh = RefreshBool False\<rparr>
       ''/srv/app'' \<lparr>uc_publicDir = None\<rparr>)))
     = InputArray [''/srv/app/src/main.ts'', ''/srv/lib/x.css'', ''/opt/y.js'']
   \<and> is_absolute ''/srv/app/src/main.ts''
   \<and> ro_input (rollupOptions (vc_build (config
       \<lparr>l_input = InputRecord [(''main'', ''src/main.ts'')],
         l_publicDir = ''public'', l_buildDir = ''build'', l_hotFile = ''public/hot'',
         l_refresh = RefreshBool False\<rparr>
       ''/srv/app'' \<lparr>uc_publicDir = None\<rparr>)))
     = InputRecord [(''main'', ''src/main.ts'')]"
proof -
  let ?paths = "[''src/main.ts'', ''../lib/./x.css'', ''/opt/y.js'']"
  let ?l = "\<lparr>l_input = InputArray ?paths,
         l_publicDir = ''public'', l_buildDir = ''build'', l_hotFile = ''public/hot'',
         l_refresh = RefreshBool False\<rparr>"
  let ?m = "\<lparr>l_input = InputRecord [(''main'', ''src/main.ts'')],
         l_publicDir = ''public'', l_buildDir = ''build'', l_hotFile = ''public/hot'',
         l_refresh = RefreshBool False\<rparr>"
  have hl: "l_input ?l = InputArray ?paths" and hm: "l_input ?m = InputRecord [(''main'', ''src/main.ts'')]"
    by simp_all
  have cwd: "is_absolute ''/srv/app''"
    by (simp add: is_absolute_def)
  have r1: "''/'' @ normalizeString ''/srv/app/src/main.ts/'' False = ''/srv/app/src/main.ts''"
    and r2: "''/'' @ normalizeString ''/srv/app/../lib/./x.css/'' False = ''/srv/lib/x.css''"
    and r3: "''/'' @ normalizeString ''/opt/y.js/'' False = ''/opt/y.js''"
    by (simp_all add: normalizeString_def normalize_segment_def)
  from config_input_resolved [of ?l ?paths "''/srv/app''" "\<lparr>uc_publicDir = None\<rparr>"] hl cwd
  have "ro_input (rollupOptions (vc_build (config ?l ''/srv/app'' \<lparr>uc_publicDir = None\<rparr>)))
          = InputArray (map (\<lambda>i. path_resolve ''/srv/app'' [''/srv/app'', i]) ?paths)"
    and "\<forall>i\<in>set ?paths. path_resolve ''/srv/app'' [''/srv/app'', i] =
            ''/'' @ normalizeString
                     (if i = [] then ''/srv/app'' @ ''/''
                      else if is_absolute i then i @ ''/''
                      else ''/srv/app'' @ ''/'' @ i @ ''/'') False"
    by blast+
  then have list_eq: "ro_input (rollupOptions (vc_build (config ?l ''/srv/app'' \<lparr>uc_publicDir = None\<rparr>)))
          = InputArray [''/srv/app/src/main.ts'', ''/srv/lib/x.css'', ''/opt/y.js'']"
    using r1 r2 r3 by (simp add: is_absolute_def)
  from config_input_resolved [of ?m _ "''/srv/app''" "\<lparr>uc_publicDir = None\<rparr>" "[(''main'', ''src/main.ts'')]"] hm
  have map_eq: "ro_input (rollupOptions (vc_build (config ?m ''/srv/app'' \<lparr>uc_publicDir = None\<rparr>)))
          = InputRecord [(''main'', ''src/main.ts'')]"
    by blast
  from list_eq map_eq show ?thesis
    by (simp add: is_absolute_def)
qed

subsection \<open>Explicit reload patterns, defaults and the public directory\<close>

text \<open>
  Claim C8. With a string as the reload option the plugin list holds, after the plugin
  itself, one reload plugin that was given the list of that single string; with a list
  of strings, one reload plugin that was given that very list. The list is a function of
  the option alone: no file system is consulted.
\<close>

theorem refresh_patterns_unchanged:
  "(refresh options = Some (RefreshString pattern) \<longrightarrow>
      hmr (Some options) = [Plugin (destructure options), FullReload [pattern]])
   \<and> (refresh options = Some (RefreshArray patterns) \<longrightarrow>
      hmr (Some options) = [Plugin (destructure options), FullReload patterns])"
  by (simp add: hmr_def refreshPlugin_def destructure_def default_to_def)

text \<open>The option \<^verbatim>\<open>["custom/**/*.php"]\<close>, and the same pattern given as a string.\<close>

theorem refresh_patterns_unchanged_witness:
  "tl (hmr (Some \<lparr>input = None, publicDir = None, buildDir = None, hotFile = None,
                   refresh = Some (RefreshArray [''custom/**/*.php''])\<rparr>))
     = [FullReload [''custom/**/*.php'']]
   \<and> tl (hmr (Some \<lparr>input = None, publicDir = None, buildDir = None, hotFile = None,
                   refresh = Some (RefreshString ''custom/**/*.php'')\<rparr>))
     = [FullReload [''custom/**/*.php'']]"
  using refresh_patterns_unchanged
      [of "\<lparr>input = None, publicDir = None, buildDir = None, hotFile = None,
            refresh = Some (RefreshArray [''custom/**/*.php''])\<rparr>" _ "[''custom/**/*.php'']"]
    refresh_patterns_unchanged
      [of "\<lparr>input = None, publicDir = None, buildDir = None, hotFile = None,
            refresh = Some (RefreshString ''custom/**/*.php'')\<rparr>" "''custom/**/*.php''"]
  by simp

text \<open>
  Claim C9. Constructed with no options, the plugin closes over the empty input list,
  the public directory \<^verbatim>\<open>public\<close>, the build directory \<^verbatim>\<open>build\<close>, the marker file
  \<^verbatim>\<open>public/hot\<close> and a disabled reload; the list of reload plugins is empty, so the
  plugin is the only element of the result.
\<close>

theorem hmr_defaults:
  "hmr None =
     [Plugin \<lparr>l_input = InputArray [], l_publicDir = ''public'', l_buildDir = ''build'',
              l_hotFile = ''public/hot'', l_refresh = RefreshBool False\<rparr>]
   \<and> hmr (Some no_options) = hmr None
   \<and> refreshPlugin (destructure no_options) = []"
proof -
  have "path_join [''public'', ''hot''] = ''public/hot''"
    using path_join_two_names [of "''public''" "''hot''"] by (simp add: plain_name_def)
  then show ?thesis
    by (simp add: hmr_def refreshPlugin_def destructure_def default_to_def no_options_def)
qed

text \<open>
  Claim C10. The settings the config hook returns carry the user's own
  \<^verbatim>\<open>publicDir\<close> value when the user configuration has one (a path or \<^verbatim>\<open>false\<close>),
  and \<^verbatim>\<open>false\<close> when the user configuration leaves it unset.
\<close>

theorem config_publicDir:
  "(uc_publicDir userConfig = Some v \<longrightarrow> vc_publicDir (config l cwd userConfig) = v)
   \<and> (uc_publicDir userConfig = None \<longrightarrow> vc_publicDir (config l cwd userConfig) = PublicDirFalse)"
  by (simp add: config_def default_to_def)

text \<open>A user configuration with a path, with \<^verbatim>\<open>false\<close>, and without the field.\<close>

theorem config_publicDir_witness:
  "vc_publicDir (config (destructure no_options) ''/srv/app''
       \<lparr>uc_publicDir = Some (PublicDirPath ''static'')\<rparr>) = PublicDirPath ''static''
   \<and> vc_publicDir (config (destructure no_options) ''/srv/app''
       \<lparr>uc_publicDir = Some PublicDirFalse\<rparr>) = PublicDirFalse
   \<and> vc_publicDir (config (destructure no_options) ''/srv/app''
       \<lparr>uc_publicDir = None\<rparr>) = PublicDirFalse"
  using config_publicDir [of "\<lparr>uc_publicDir = Some (PublicDirPath ''static'')\<rparr>" "PublicDirPath ''static''"
          "destructure no_options" "''/srv/app''"]
    config_publicDir [of "\<lparr>uc_publicDir = Some PublicDirFalse\<rparr>" PublicDirFalse
          "destructure no_options" "''/srv/app''"]
    config_publicDir [of "\<lparr>uc_publicDir = None\<rparr>" _ "destructure no_options" "''/srv/app''"]
  by simp

subsection \<open>The marker file\<close>

lemma cleanup_cases:
  "cleanup l w =
     (case w_fs w (l_hotFile l) of
        None \<Rightarrow> Inr w
      | Some Directory \<Rightarrow> Inl EISDIR
      | Some (File content) \<Rightarrow> Inr (w\<lparr>w_fs := (w_fs w)(l_hotFile l := None)\<rparr>))"
  by (simp add: cleanup_def existsSync_def unlinkSync_def split: option.splits fs_node.splits)

lemma cleanup_result:
  assumes "cleanup l w = Inr w1"
  shows "w_fs w1 = (w_fs w)(l_hotFile l := None)"
    and "w_exit w1 = w_exit w"
    and "w_listeners w1 = w_listeners w"
  using assms unfolding cleanup_cases
  by (auto split: option.splits fs_node.splits)

lemma cleanup_absent: "w_fs w (l_hotFile l) = None \<Longrightarrow> cleanup l w = Inr w"
  by (simp add: cleanup_cases)

lemma cleanup_succeeds:
  assumes "w_fs w (l_hotFile l) \<noteq> Some Directory"
  shows "\<exists>w1. cleanup l w = Inr w1"
  using assms unfolding cleanup_cases
  by (auto split: option.splits fs_node.splits)

lemma writeFileSync_result:
  "writeFileSync fs p data = Inr fs1 \<Longrightarrow> fs1 = fs(p \<mapsto> File data)"
  by (auto simp: writeFileSync_def split: if_splits option.splits fs_node.splits)

lemma on_listening_result:
  assumes "on_listening l srv w = Inr w1"
  shows "w_fs w1 (l_hotFile l) = Some (File (dev_server_url (server_address_of srv)))"
    and "w_exit w1 = w_exit w"
    and "w_listeners w1 = w_listeners w"
proof -
  from assms obtain fs1 fs2 where
    wr: "writeFileSync fs1 (l_hotFile l) (dev_server_url (server_address_of srv)) = Inr fs2"
    and w1: "w1 = w\<lparr>w_fs := fs2\<rparr>"
    by (auto simp: on_listening_def Let_def split: sum.splits)
  from writeFileSync_result [OF wr] w1
  show "w_fs w1 (l_hotFile l) = Some (File (dev_server_url (server_address_of srv)))"
    and "w_exit w1 = w_exit w" and "w_listeners w1 = w_listeners w"
    by simp_all
qed

text \<open>
  Claim C1, as the code has it. For every value the address of the server may have when
  it starts listening: the host is \<^verbatim>\<open>localhost\<close> when the address is the IPv6
  unspecified address \<^verbatim>\<open>::\<close>, and the address string itself for every other address
  information; the port is the one of the address information; without address
  information the host is \<^verbatim>\<open>localhost\<close> and the port is 5173; and when the callback of
  the listening event returns, the marker file is a file whose whole content is
  \<^verbatim>\<open>http://\<close>, the host, a colon and the port in decimal digits.
\<close>

theorem hot_file_url:
  "(address info = ''::'' \<longrightarrow> resolved_host (AddrInfo info) = ''localhost'')
   \<and> (address info \<noteq> ''::'' \<longrightarrow> resolved_host (AddrInfo info) = address info)
   \<and> resolved_port (AddrInfo info) = port info
   \<and> (\<not> isAddressInfo addr \<longrightarrow> resolved_host addr = ''localhost'' \<and> resolved_port addr = 5173)
   \<and> (httpServer srv = Some addr \<and> on_listening l srv w = Inr w1 \<longrightarrow>
        w_fs w1 (l_hotFile l) =
          Some (File (''http://'' @ resolved_host addr @ '':'' @ number_toString (resolved_port addr))))"
proof -
  have "w_fs w1 (l_hotFile l) =
          Some (File (''http://'' @ resolved_host addr @ '':'' @ number_toString (resolved_port addr)))"
    if "httpServer srv = Some addr" and "on_listening l srv w = Inr w1"
    using on_listening_result(1) [OF that(2)] that(1)
    by (simp add: dev_server_url_def server_address_of_def)
  moreover have "\<not> isAddressInfo addr \<longrightarrow> resolved_host addr = ''localhost'' \<and> resolved_port addr = 5173"
    by (cases addr) (simp_all add: isAddressInfo_def resolved_host_def resolved_port_def)
  ultimately show ?thesis
    by (simp add: resolved_host_def resolved_port_def)
qed

text \<open>
  A first start under the address \<^verbatim>\<open>::\<close> and port 5174, on a file system without the
  directory of the marker file: the directory is created and the marker file holds
  \<^verbatim>\<open>http://localhost:5174\<close>. Without address information it holds
  \<^verbatim>\<open>http://localhost:5173\<close>.
\<close>

theorem hot_file_url_witness:
  "(\<exists>w1. on_listening (destructure no_options)
            \<lparr>httpServer = Some (AddrInfo \<lparr>address = ''::'', family = ''IPv6'', port = 5174\<rparr>)\<rparr>
            \<lparr>w_fs = Map.empty, w_exit = None, w_listeners = []\<rparr> = Inr w1
         \<and> w_fs w1 ''public/hot'' = Some (File ''http://localhost:5174''))
   \<and> (\<exists>w1. on_listening (destructure no_options)
            \<lparr>httpServer = Some AddrNull\<rparr>
            \<lparr>w_fs = Map.empty, w_exit = None, w_listeners = []\<rparr> = Inr w1
         \<and> w_fs w1 ''public/hot'' = Some (File ''http://localhost:5173''))"
proof -
  let ?l = "destructure no_options"
  let ?w = "\<lparr>w_fs = Map.empty, w_exit = None, w_listeners = []\<rparr>"
  let ?info = "\<lparr>address = ''::'', family = ''IPv6'', port = 5174\<rparr>"
  let ?srv = "\<lparr>httpServer = Some (AddrInfo ?info)\<rparr>"
  let ?none = "\<lparr>httpServer = Some AddrNull\<rparr>"
  have hot: "l_hotFile ?l = ''public/hot''"
    using path_join_two_names [of "''public''" "''hot''"]
    by (simp add: destructure_def no_options_def default_to_def plain_name_def)
  have dir: "path_dirname ''public/hot'' = ''public''" "path_dirname ''public'' = ''.''"
    "path_dirname ''.'' = ''.''"
    by (simp_all add: path_dirname_def)
  have chain: "mkdir_chain (length ''public'') ''public'' = [''public'', ''.'']"
    by (simp add: dir eval_nat_numeral)
  have run: "\<exists>w1. on_listening ?l srv ?w = Inr w1" for srv
    by (simp add: on_listening_def hot dir chain existsSync_def mkdirSync_recursive_def
        is_file_def writeFileSync_def Let_def)
  have digits: "number_toString 5174 = ''5174''" "number_toString 5173 = ''5173''"
    by (simp_all add: number_toString.simps)
  from run obtain w1 where w1: "on_listening ?l ?srv ?w = Inr w1" by blast
  from run obtain w2 where w2: "on_listening ?l ?none ?w = Inr w2" by blast
  have "w_fs w1 ''public/hot'' = Some (File ''http://localhost:5174'')"
    using hot_file_url [of ?info "AddrInfo ?info" ?srv ?l ?w w1] w1
    by (simp add: hot digits)
  moreover have "w_fs w2 ''public/hot'' = Some (File ''http://localhost:5173'')"
    using hot_file_url [of ?info AddrNull ?none ?l ?w w2] w2
    by (simp add: hot digits isAddressInfo_def)
  ultimately show ?thesis using w1 w2 by blast
qed

text \<open>
  Claim C1 as it is written does not hold: \<^verbatim>\<open>0.0.0.0\<close> is an unspecified address, and
  the host written for it is not \<^verbatim>\<open>localhost\<close>.
\<close>

theorem unspecified_ipv4_not_localhost:
  "unspecified_address ''0.0.0.0''
   \<and> resolved_host (AddrInfo \<lparr>address = ''0.0.0.0'', family = ''IPv4'', port = 5174\<rparr>)
       \<noteq> ''localhost''
   \<and> dev_server_url (AddrInfo \<lparr>address = ''0.0.0.0'', family = ''IPv4'', port = 5174\<rparr>)
       = ''http://0.0.0.0:5174''"
  by (simp add: unspecified_address_def resolved_host_def resolved_port_def dev_server_url_def
      number_toString.simps)

subsection \<open>Sessions: the listeners at work\<close>

lemma same_listeners: "w_listeners w = ls \<Longrightarrow> w\<lparr>w_listeners := ls\<rparr> = w"
  by auto

lemma emit_configured:
  assumes "w_exit w = None" and "w_listeners w = []"
  shows "emit SIGINT (configureServer l srv w) = cleanup_and_exit l (configureServer l srv w)"
    and "emit SIGTERM (configureServer l srv w) = cleanup_and_exit l (configureServer l srv w)"
  using assms by (simp_all add: emit_def configureServer_def split: sum.splits)

text \<open>The listeners that remain once the listening event has been emitted.\<close>

lemma emit_Listening_configured:
  assumes "w_exit w = None" and "w_listeners w = []" and "httpServer srv \<noteq> None"
  shows "emit Listening (configureServer l srv w) =
           on_listening l srv
             (w\<lparr>w_listeners := [(Close, False, Cleanup l), (SIGINT, False, CleanupAndExit l),
                                 (SIGTERM, False, CleanupAndExit l)]\<rparr>)"
  using assms by (simp add: emit_def configureServer_def split: sum.splits)

lemma session_started:
  assumes "w_exit w = None" and "w_listeners w = []" and "httpServer srv \<noteq> None"
    and "emit Listening (configureServer l srv w) = Inr w1"
  shows "w_exit w1 = None"
    and "w_listeners w1 = [(Close, False, Cleanup l), (SIGINT, False, CleanupAndExit l),
                           (SIGTERM, False, CleanupAndExit l)]"
    and "\<exists>content. w_fs w1 (l_hotFile l) = Some (File content)"
  using assms(4) on_listening_result [of l srv _ w1] assms(1)
  unfolding emit_Listening_configured [OF assms(1-3)]
  by simp_all

lemma emit_session:
  assumes "w_exit w = None"
    and "w_listeners w = [(Close, False, Cleanup l), (SIGINT, False, CleanupAndExit l),
                          (SIGTERM, False, CleanupAndExit l)]"
  shows "emit Close w = cleanup l w"
    and "emit SIGINT w = cleanup_and_exit l w"
    and "emit SIGTERM w = cleanup_and_exit l w"
  using assms(1)
  by (simp_all add: emit_def assms(2) same_listeners [OF assms(2)] split: sum.splits)

text \<open>
  Claim C5. The cleanup never fails for a missing file: it unlinks the marker file only
  when the existence check finds it, and returns without touching anything otherwise.
  It is idempotent: after a cleanup that returned, the marker file is gone and a second
  cleanup returns and changes nothing. A session that started (the listening event was
  handled) and then stops (the close event) leaves no marker file, and a second close
  changes nothing.
\<close>

theorem cleanup_guarded_idempotent:
  "cleanup l w \<noteq> Inl ENOENT
   \<and> (\<not> existsSync (w_fs w) (l_hotFile l) \<longrightarrow> cleanup l w = Inr w)
   \<and> (cleanup l w = Inr w1 \<longrightarrow>
        \<not> existsSync (w_fs w1) (l_hotFile l) \<and> cleanup l w1 = Inr w1)
   \<and> (w_exit w = None \<and> w_listeners w = [] \<and> httpServer srv \<noteq> None
        \<and> emit Listening (configureServer l srv w) = Inr w2 \<longrightarrow>
        (\<exists>w3. emit Close w2 = Inr w3 \<and> \<not> existsSync (w_fs w3) (l_hotFile l)
              \<and> emit Close w3 = Inr w3))"
proof -
  have no_enoent: "cleanup l w \<noteq> Inl ENOENT"
    unfolding cleanup_cases by (simp split: option.splits fs_node.splits)
  have absent: "cleanup l w = Inr w" if "\<not> existsSync (w_fs w) (l_hotFile l)"
    using that by (simp add: cleanup_absent existsSync_def)
  have twice: "\<not> existsSync (w_fs v1) (l_hotFile l) \<and> cleanup l v1 = Inr v1"
    if "cleanup l v = Inr v1" for v v1
    using cleanup_result(1) [OF that] by (simp add: existsSync_def cleanup_absent)
  have session: "\<exists>w3. emit Close w2 = Inr w3 \<and> \<not> existsSync (w_fs w3) (l_hotFile l)
              \<and> emit Close w3 = Inr w3"
    if fresh: "w_exit w = None" "w_listeners w = []" "httpServer srv \<noteq> None"
      and start: "emit Listening (configureServer l srv w) = Inr w2"
  proof -
    note s = session_started [OF fresh start]
    from s(3) have "w_fs w2 (l_hotFile l) \<noteq> Some Directory" by auto
    then obtain w3 where stop: "cleanup l w2 = Inr w3"
      using cleanup_succeeds by blast
    from cleanup_result [OF stop] s have s3: "w_exit w3 = None"
      "w_listeners w3 = [(Close, False, Cleanup l), (SIGINT, False, CleanupAndExit l),
                         (SIGTERM, False, CleanupAndExit l)]"
      by simp_all
    have "emit Close w2 = Inr w3"
      using emit_session(1) [OF s(1,2)] stop by simp
    moreover have "emit Close w3 = Inr w3"
      using emit_session(1) [OF s3] twice [OF stop] by simp
    ultimately show ?thesis
      using twice [OF stop] by blast
  qed
  from no_enoent absent twice session show ?thesis by blast
qed

text \<open>
  A session on an empty file system with the default options: the marker file is
  written at the listening event, and after the close event, and after a second one,
  no marker file exists.
\<close>

theorem cleanup_guarded_idempotent_witness:
  "\<exists>w2 w3. emit Listening (configureServer (destructure no_options)
               \<lparr>httpServer = Some (AddrInfo \<lparr>address = ''::'', family = ''IPv6'', port = 5174\<rparr>)\<rparr>
               \<lparr>w_fs = Map.empty, w_exit = None, w_listeners = []\<rparr>) = Inr w2
     \<and> existsSync (w_fs w2) ''public/hot''
     \<and> emit Close w2 = Inr w3
     \<and> \<not> existsSync (w_fs w3) ''public/hot''
     \<and> emit Close w3 = Inr w3"
proof -
  let ?l = "destructure no_options"
  let ?w = "\<lparr>w_fs = Map.empty, w_exit = None, w_listeners = []\<rparr>"
  let ?srv = "\<lparr>httpServer = Some (AddrInfo \<lparr>address = ''::'', family = ''IPv6'', port = 5174\<rparr>)\<rparr>"
  have fresh: "w_exit ?w = None" "w_listeners ?w = []" "httpServer ?srv \<noteq> None"
    by simp_all
  have hot: "l_hotFile ?l = ''public/hot''"
    using path_join_two_names [of "''public''" "''hot''"]
    by (simp add: destructure_def no_options_def default_to_def plain_name_def)
  have dir: "path_dirname ''public/hot'' = ''public''" "path_dirname ''public'' = ''.''"
    "path_dirname ''.'' = ''.''"
    by (simp_all add: path_dirname_def)
  have chain: "mkdir_chain (length ''public'') ''public'' = [''public'', ''.'']"
    by (simp add: dir eval_nat_numeral)
  have "\<exists>w2. emit Listening (configureServer ?l ?srv ?w) = Inr w2"
    unfolding emit_Listening_configured [OF fresh]
    by (simp add: on_listening_def hot dir chain existsSync_def mkdirSync_recursive_def
        is_file_def writeFileSync_def Let_def)
  then obtain w2 where start: "emit Listening (configureServer ?l ?srv ?w) = Inr w2"
    by blast
  from session_started(3) [OF fresh start] have "existsSync (w_fs w2) ''public/hot''"
    by (auto simp: existsSync_def hot)
  moreover from cleanup_guarded_idempotent [of ?l ?w _ ?srv w2] fresh start
  obtain w3 where "emit Close w2 = Inr w3" and "\<not> existsSync (w_fs w3) (l_hotFile ?l)"
    and "emit Close w3 = Inr w3"
    by blast
  ultimately show ?thesis
    using start unfolding hot by blast
qed

text \<open>
  Claim C7. The listener of the interrupt and of the termination signal runs the
  cleanup and then exits: when it returns, the process has exit code 0 and the state at
  the exit is the one the cleanup left, with no marker file; when it throws, the cleanup
  threw and the process was not exited by the listener. After
  \<^verbatim>\<open>configureServer\<close> on a process without other listeners, either signal runs exactly
  this listener; in a session that has started, it returns, so the process exits with
  code 0 and without the marker file.
\<close>

theorem signal_cleanup_then_exit:
  "(cleanup_and_exit l w = Inr w1 \<longrightarrow>
      (\<exists>v. cleanup l w = Inr v \<and> w1 = process_exit 0 v)
      \<and> w_exit w1 = Some 0 \<and> \<not> existsSync (w_fs w1) (l_hotFile l))
   \<and> (cleanup_and_exit l w = Inl e \<longrightarrow> cleanup l w = Inl e)
   \<and> ((ev = SIGINT \<or> ev = SIGTERM) \<and> w_exit w = None \<and> w_listeners w = [] \<longrightarrow>
        emit ev (configureServer l srv w) = cleanup_and_exit l (configureServer l srv w))
   \<and> ((ev = SIGINT \<or> ev = SIGTERM) \<and> w_exit w = None \<and> w_listeners w = []
        \<and> httpServer srv \<noteq> None \<and> emit Listening (configureServer l srv w) = Inr w2 \<longrightarrow>
        emit ev w2 = cleanup_and_exit l w2
        \<and> (\<exists>w3. emit ev w2 = Inr w3 \<and> w_exit w3 = Some 0
              \<and> \<not> existsSync (w_fs w3) (l_hotFile l)))"
proof -
  have returns: "(\<exists>v. cleanup l u = Inr v \<and> u1 = process_exit 0 v)
      \<and> w_exit u1 = Some 0 \<and> \<not> existsSync (w_fs u1) (l_hotFile l)"
    if "cleanup_and_exit l u = Inr u1" for u u1
  proof -
    from that obtain v where v: "cleanup l u = Inr v" and u1: "u1 = process_exit 0 v"
      by (auto simp: cleanup_and_exit_def split: sum.splits)
    from cleanup_result(1) [OF v] u1 have "\<not> existsSync (w_fs u1) (l_hotFile l)"
      by (simp add: existsSync_def process_exit_def)
    with v u1 show ?thesis by (simp add: process_exit_def)
  qed
  have throws: "cleanup l w = Inl e" if "cleanup_and_exit l w = Inl e"
    using that by (auto simp: cleanup_and_exit_def split: sum.splits)
  have configured: "emit ev (configureServer l srv w) = cleanup_and_exit l (configureServer l srv w)"
    if "ev = SIGINT \<or> ev = SIGTERM" and "w_exit w = None" and "w_listeners w = []"
    using that emit_configured [OF that(2,3)] by auto
  have session: "emit ev w2 = cleanup_and_exit l w2
        \<and> (\<exists>w3. emit ev w2 = Inr w3 \<and> w_exit w3 = Some 0
              \<and> \<not> existsSync (w_fs w3) (l_hotFile l))"
    if ev: "ev = SIGINT \<or> ev = SIGTERM"
      and fresh: "w_exit w = None" "w_listeners w = []" "httpServer srv \<noteq> None"
      and start: "emit Listening (configureServer l srv w) = Inr w2"
  proof -
    note s = session_started [OF fresh start]
    from ev emit_session(2,3) [OF s(1,2)] have run: "emit ev w2 = cleanup_and_exit l w2"
      by auto
    from s(3) have "w_fs w2 (l_hotFile l) \<noteq> Some Directory" by auto
    then obtain v where "cleanup l w2 = Inr v"
      using cleanup_succeeds by blast
    then have "cleanup_and_exit l w2 = Inr (process_exit 0 v)"
      by (simp add: cleanup_and_exit_def)
    with run returns show ?thesis by metis
  qed
  have c1: "cleanup_and_exit l w = Inr w1 \<longrightarrow>
      (\<exists>v. cleanup l w = Inr v \<and> w1 = process_exit 0 v)
      \<and> w_exit w1 = Some 0 \<and> \<not> existsSync (w_fs w1) (l_hotFile l)"
    using returns [of w w1] by (rule impI)
  have c2: "cleanup_and_exit l w = Inl e \<longrightarrow> cleanup l w = Inl e"
    using throws by (rule impI)
  have c3: "(ev = SIGINT \<or> ev = SIGTERM) \<and> w_exit w = None \<and> w_listeners w = [] \<longrightarrow>
        emit ev (configureServer l srv w) = cleanup_and_exit l (configureServer l srv w)"
    using configured by (intro impI) (elim conjE)
  have c4: "(ev = SIGINT \<or> ev = SIGTERM) \<and> w_exit w = None \<and> w_listeners w = []
        \<and> httpServer srv \<noteq> None \<and> emit Listening (configureServer l srv w) = Inr w2 \<longrightarrow>
        emit ev w2 = cleanup_and_exit l w2
        \<and> (\<exists>w3. emit ev w2 = Inr w3 \<and> w_exit w3 = Some 0
              \<and> \<not> existsSync (w_fs w3) (l_hotFile l))"
    using session by (intro impI) (elim conjE)
  from c1 c2 c3 c4 show ?thesis by (intro conjI)
qed

text \<open>
  A session on an empty file system with the default options, interrupted after it
  started: the process exits with code 0 and the marker file does not exist.
\<close>

theorem signal_cleanup_then_exit_witness:
  "\<exists>w2 w3. emit Listening (configureServer (destructure no_options)
               \<lparr>httpServer = Some (AddrInfo \<lparr>address = ''::'', family = ''IPv6'', port = 5174\<rparr>)\<rparr>
               \<lparr>w_fs = Map.empty, w_exit = None, w_listeners = []\<rparr>) = Inr w2
     \<and> existsSync (w_fs w2) ''public/hot''
     \<and> emit SIGINT w2 = Inr w3
     \<and> w_exit w3 = Some 0
     \<and> \<not> existsSync (w_fs w3) ''public/hot''"
proof -
  let ?l = "destructure no_options"
  let ?w = "\<lparr>w_fs = Map.empty, w_exit = None, w_listeners = []\<rparr>"
  let ?srv = "\<lparr>httpServer = Some (AddrInfo \<lparr>address = ''::'', family = ''IPv6'', port = 5174\<rparr>)\<rparr>"
  have fresh: "w_exit ?w = None" "w_listeners ?w = []" "httpServer ?srv \<noteq> None"
    by simp_all
  have hot: "l_hotFile ?l = ''public/hot''"
    using path_join_two_names [of "''public''" "''hot''"]
    by (simp add: destructure_def no_options_def default_to_def plain_name_def)
  have dir: "path_dirname ''public/hot'' = ''public''" "path_dirname ''public'' = ''.''"
    "path_dirname ''.'' = ''.''"
    by (simp_all add: path_dirname_def)
  have chain: "mkdir_chain (length ''public'') ''public'' = [''public'', ''.'']"
    by (simp add: dir eval_nat_numeral)
  have "\<exists>w2. emit Listening (configureServer ?l ?srv ?w) = Inr w2"
    unfolding emit_Listening_configured [OF fresh]
    by (simp add: on_listening_def hot dir chain existsSync_def mkdirSync_recursive_def
        is_file_def writeFileSync_def Let_def)
  then obtain w2 where start: "emit Listening (configureServer ?l ?srv ?w) = Inr w2"
    by blast
  from session_started(3) [OF fresh start] have "existsSync (w_fs w2) ''public/hot''"
    by (auto simp: existsSync_def hot)
  moreover from signal_cleanup_then_exit [of ?l ?w _ _ SIGINT ?srv w2] fresh start
  obtain w3 where "emit SIGINT w2 = Inr w3" and "w_exit w3 = Some 0"
    and "\<not> existsSync (w_fs w3) (l_hotFile ?l)"
    by blast
  ultimately show ?thesis
    using start unfolding hot by blast
qed

end
